theory Spec2Isabelle
  imports Main
begin

section \<open>The content codec of \<open>notegui.py\<close>\<close>

text \<open>
  Python 2 byte strings are modelled as \<open>string\<close> (a list of 8-bit characters). The two
  regular expressions of the source are compiled with \<open>re.M|re.I|re.U|re.S\<close>: there is no
  anchor in either pattern, so \<open>re.M\<close> changes nothing; \<open>re.S\<close> lets the dot match
  every character, the line break included; \<open>re.I\<close> compares the lower-cased subject
  character with the (lower-case) pattern character. Every letter of the two patterns is
  an ASCII letter, and no 8-bit character outside \<open>A-Z\<close> lower-cases to an ASCII letter,
  so the ASCII lower-casing below decides the same comparisons.
\<close>

definition newline :: char where
  "newline = CHR 0x0A"

definition lower :: "char \<Rightarrow> char" where
  "lower c = (let n = (of_char c :: nat) in if 65 \<le> n \<and> n \<le> 90 then char_of (n + 32) else c)"

text \<open>A literal of a pattern, matched at the start of the subject, ignoring case.\<close>

fun starts_ci :: "string \<Rightarrow> string \<Rightarrow> bool" where
  "starts_ci [] s = True"
| "starts_ci (p # ps) [] = False"
| "starts_ci (p # ps) (c # cs) = (lower c = p \<and> starts_ci ps cs)"

text \<open>
  \<open>(.*?)lit\<close> at the end of a pattern: the lazy group takes the fewest characters after
  which the literal matches. The result is the group and what follows the literal.
\<close>

fun find_ci :: "string \<Rightarrow> string \<Rightarrow> (string \<times> string) option" where
  "find_ci lit [] = (if starts_ci lit [] then Some ([], []) else None)"
| "find_ci lit (c # cs) =
     (if starts_ci lit (c # cs) then Some ([], drop (length lit) (c # cs))
      else (case find_ci lit cs of None \<Rightarrow> None | Some (g, r) \<Rightarrow> Some (c # g, r)))"

fun occurs_ci :: "string \<Rightarrow> string \<Rightarrow> bool" where
  "occurs_ci lit [] = starts_ci lit []"
| "occurs_ci lit (c # cs) = (starts_ci lit (c # cs) \<or> occurs_ci lit cs)"

subsection \<open>\<open>Note.re_get_body\<close>\<close>

text \<open>
  \<^verbatim>\<open><div[^>]*?id="body"[^>]*?>(.*?)</div>\<close>, read from the right. Each function is the
  backtracking matcher for the rest of the pattern, anchored at the start of its argument:
  it returns group 1 and the text after the match.
\<close>

text \<open>\<^verbatim>\<open>[^>]*?>(.*?)</div>\<close>: a lazy run of characters other than \<open>>\<close>, then \<open>>\<close>.\<close>

fun match_gt :: "string \<Rightarrow> (string \<times> string) option" where
  "match_gt [] = None"
| "match_gt (c # cs) = (if c = CHR ''>'' then find_ci ''</div>'' cs else match_gt cs)"

text \<open>\<^verbatim>\<open>[^>]*?id="body"[^>]*?>(.*?)</div>\<close>: the attribute is tried at every position of
  a run without \<open>>\<close>, nearest first; when the rest fails there, the run grows by one.\<close>

fun match_attrs :: "string \<Rightarrow> (string \<times> string) option" where
  "match_attrs [] = None"
| "match_attrs (c # cs) =
     (case (if starts_ci ''id=\"body\"'' (c # cs) then match_gt (drop 9 (c # cs)) else None) of
        Some m \<Rightarrow> Some m
      | None \<Rightarrow> if c = CHR ''>'' then None else match_attrs cs)"

definition match_at :: "string \<Rightarrow> (string \<times> string) option" where
  "match_at s = (if starts_ci ''<div'' s then match_attrs (drop 4 s) else None)"

text \<open>The leftmost match: every start position in turn.\<close>

fun re_get_body_search :: "string \<Rightarrow> (string \<times> string) option" where
  "re_get_body_search [] = None"
| "re_get_body_search (c # cs) =
     (case match_at (c # cs) of Some m \<Rightarrow> Some m | None \<Rightarrow> re_get_body_search cs)"

lemma find_ci_length: "find_ci lit s = Some (g, r) \<Longrightarrow> length r \<le> length s"
  by (induction s arbitrary: g) (auto split: if_splits option.splits)

lemma match_gt_length: "match_gt s = Some (g, r) \<Longrightarrow> length r < length s"
  by (induction s) (auto split: if_splits dest: find_ci_length)

lemma match_attrs_length: "match_attrs s = Some (g, r) \<Longrightarrow> length r < length s"
proof (induction s)
  case Nil
  then show ?case by simp
next
  case (Cons c cs)
  show ?case
  proof (cases "starts_ci ''id=\"body\"'' (c # cs) \<and> match_gt (drop 9 (c # cs)) \<noteq> None")
    case True
    with Cons.prems have "match_gt (drop 9 (c # cs)) = Some (g, r)"
      by auto
    then have "length r < length (drop 9 (c # cs))"
      by (rule match_gt_length)
    then show ?thesis by simp
  next
    case False
    with Cons.prems have "match_attrs cs = Some (g, r)"
      by (auto split: if_splits option.splits)
    with Cons.IH show ?thesis by simp
  qed
qed

lemma match_at_length: "match_at s = Some (g, r) \<Longrightarrow> length r < length s"
  unfolding match_at_def
  by (auto split: if_splits dest!: match_attrs_length)

lemma re_get_body_search_length:
  "re_get_body_search s = Some (g, r) \<Longrightarrow> length r < length s"
  by (induction s) (auto split: option.splits dest!: match_at_length)

text \<open>\<open>findall\<close>: group 1 of every match, each search resuming where the last match ended.\<close>

function re_get_body_findall :: "string \<Rightarrow> string list" where
  "re_get_body_findall s =
     (case re_get_body_search s of
        None \<Rightarrow> []
      | Some (g, r) \<Rightarrow> g # re_get_body_findall r)"
  by pat_completeness auto
termination
  by (relation "measure length") (auto dest: re_get_body_search_length)

declare re_get_body_findall.simps [simp del]

subsection \<open>\<open>NormalNote.GetBodyFromSource\<close>\<close>

text \<open>
  \<open>re_replace1.sub('\g<1>\n', body)\<close> with \<^verbatim>\<open><p>(.*?)</p>\<close>: at the leftmost position
  where the pattern matches, the match is replaced by its group and a line break, and the
  scan resumes after the match; a character at which the pattern fails is copied.
\<close>

function re_replace1_sub :: "string \<Rightarrow> string" where
  "re_replace1_sub [] = []"
| "re_replace1_sub (c # cs) =
     (case (if starts_ci ''<p>'' (c # cs) then find_ci ''</p>'' (drop 3 (c # cs)) else None) of
        Some (g, r) \<Rightarrow> g @ [newline] @ re_replace1_sub r
      | None \<Rightarrow> c # re_replace1_sub cs)"
  by pat_completeness auto
termination
  by (relation "measure length") (auto split: if_splits dest!: find_ci_length)

declare re_replace1_sub.simps(2) [simp del]

datatype py_error = IndexError | SaveError

text \<open>
  \<open>findall(source)[0]\<close> raises \<open>IndexError\<close> on the empty list. \<open>SaveError\<close>
  stands for whatever exception a save lets escape (see \<open>save_memo\<close> below).
\<close>

definition GetBodyFromSource :: "string \<Rightarrow> py_error + string" where
  "GetBodyFromSource source =
     (case re_get_body_findall source of
        [] \<Rightarrow> Inl IndexError
      | body # _ \<Rightarrow> Inr (re_replace1_sub body))"

subsection \<open>\<open>NormalNote.SerializeBody\<close>\<close>

text \<open>\<open>str.split('\n')\<close>: the pieces between line breaks; never the empty list.\<close>

fun split_newline :: "string \<Rightarrow> string list" where
  "split_newline [] = [[]]"
| "split_newline (c # cs) =
     (if c = newline then [] # split_newline cs
      else (case split_newline cs of
              [] \<Rightarrow> [[c]]
            | l # ls \<Rightarrow> (c # l) # ls))"

text \<open>The argument is the value of the text control, \<open>self.GetBody()\<close>.\<close>

definition SerializeBody :: "string \<Rightarrow> string" where
  "SerializeBody str =
     (let rval = foldl (\<lambda>rval str2. rval @ ''<p>'' @ str2 @ ''</p>'') [] (split_newline str)
      in ''<div id=\"body\">'' @ rval @ ''</div>'')"

text \<open>One iteration of the loop appends \<^verbatim>\<open>"<p>" + str2 + "</p>"\<close>: a paragraph segment.\<close>

definition p_segment :: "string \<Rightarrow> string" where
  "p_segment str2 = ''<p>'' @ str2 @ ''</p>''"

section \<open>The autosave logic of \<open>notegui.py\<close>\<close>

text \<open>
  The handlers of \<open>Note\<close>, \<open>NormalNote\<close> and \<open>MemoList.MemoNode\<close> as functions on
  records of the fields they read and write. Window layout, bitmaps' files and the
  \<open>print\<close> statements are left out. A handler that lets an exception escape returns
  \<open>Inl\<close> with the exception and the state as its assignments left it.
\<close>

subsection \<open>The memo object\<close>

datatype memo_call = Set_title string | Save_memo | Close_memo

record page =
  title :: string
  source :: string

record memo =
  page :: "page option"
  is_open :: bool
  calls :: "memo_call list"

text \<open>
  \<open>page\<close> is \<open>memo.page\<close> (\<open>None\<close> for a new memo), \<open>is_open\<close> is
  \<open>memo.header.is_open\<close>, and \<open>calls\<close> lists, oldest first, the calls the memo has
  received on the three methods below.
\<close>

datatype save_outcome = Saved | Failed | Raised

text \<open>
  Modelled from the spec: the class of \<open>self.memo\<close> with its methods \<open>save_memo\<close>,
  \<open>close_memo\<close> and \<open>set_title\<close> is not among the sources. The spec gives the
  service's \<open>update\<close> the results success and failure, and a Python call can also raise:
  the outcome of a save is a parameter (\<open>Saved\<close>, \<open>Failed\<close> for a call that
  returns after a failed update, \<open>Raised\<close>). The spec gives a memo a user-editable
  title and a local close that ends the session without deleting. Each call is recorded
  in \<open>calls\<close>.
\<close>

definition save_memo :: "save_outcome \<Rightarrow> memo \<Rightarrow> (py_error \<times> memo) + memo" where
  "save_memo outcome m =
     (let m' = m\<lparr>calls := calls m @ [Save_memo]\<rparr>
      in case outcome of Raised \<Rightarrow> Inl (SaveError, m') | _ \<Rightarrow> Inr m')"

definition close_memo :: "memo \<Rightarrow> memo" where
  "close_memo m = m\<lparr>calls := calls m @ [Close_memo]\<rparr>"

definition set_title :: "string \<Rightarrow> memo \<Rightarrow> memo" where
  "set_title str m =
     m\<lparr>page := map_option (\<lambda>pg. pg\<lparr>title := str\<rparr>) (page m),
       calls := calls m @ [Set_title str]\<rparr>"

subsection \<open>\<open>Note\<close> and \<open>NormalNote\<close>\<close>

datatype status_bitmap = Green | Blue

record normal_note =
  memo :: memo
  body :: "string option"
  is_modified :: bool
  timer :: "nat option"
  button_status :: status_bitmap
  shown :: bool
  text_value :: string

text \<open>
  \<open>timer\<close> is \<open>None\<close> while \<open>self.timer\<close> is not running and holds the interval in
  milliseconds while it is; \<open>shown\<close> is the frame's visibility; \<open>text_value\<close> is the
  value of the text control \<open>self.text\<close>.
\<close>

definition DEFAULT_TIMER_TIME :: nat where
  "DEFAULT_TIMER_TIME = 5000"

definition CheckShowNote :: "bool option \<Rightarrow> normal_note \<Rightarrow> normal_note" where
  "CheckShowNote val n =
     (case val of Some v \<Rightarrow> n\<lparr>shown := v\<rparr> | None \<Rightarrow> n\<lparr>shown := is_open (memo n)\<rparr>)"

text \<open>\<open>Note.__init__\<close> followed by \<open>NormalNote.initCustomGUI\<close>: the state before
  \<open>initData\<close>.\<close>

definition Note_init :: "memo \<Rightarrow> normal_note" where
  "Note_init m =
     CheckShowNote None
       \<lparr>memo = m, body = None, is_modified = False, timer = None,
        button_status = Green, shown = False, text_value = []\<rparr>"

definition SetBody :: "string \<Rightarrow> normal_note \<Rightarrow> normal_note" where
  "SetBody str n = n\<lparr>text_value := str\<rparr>"

definition GetBody :: "normal_note \<Rightarrow> string" where
  "GetBody n = text_value n"

text \<open>\<open>initData\<close> runs before \<open>SetChangeState\<close> binds \<open>OnChange\<close>, so setting the
  text here marks nothing modified.\<close>

definition initData :: "normal_note \<Rightarrow> (py_error \<times> normal_note) + normal_note" where
  "initData n =
     (case page (memo n) of
        None \<Rightarrow> Inr n
      | Some pg \<Rightarrow>
          (case GetBodyFromSource (source pg) of
             Inl e \<Rightarrow> Inl (e, n)
           | Inr b \<Rightarrow> Inr (SetBody b (n\<lparr>body := Some b\<rparr>))))"

definition StartTimer :: "nat \<Rightarrow> normal_note \<Rightarrow> normal_note" where
  "StartTimer max_time n =
     (let n' = (if timer n \<noteq> None then n\<lparr>timer := None\<rparr> else n)
      in n'\<lparr>timer := Some max_time\<rparr>)"

definition StopTimer :: "normal_note \<Rightarrow> normal_note" where
  "StopTimer n = n\<lparr>timer := None\<rparr>"

definition SetStatusModified :: "normal_note \<Rightarrow> normal_note" where
  "SetStatusModified n = n\<lparr>is_modified := True, button_status := Blue\<rparr>"

definition SetStatusRecent :: "normal_note \<Rightarrow> normal_note" where
  "SetStatusRecent n = n\<lparr>is_modified := False, button_status := Green\<rparr>"

definition UpdateNote :: "save_outcome \<Rightarrow> normal_note \<Rightarrow> (py_error \<times> normal_note) + normal_note" where
  "UpdateNote outcome n =
     (case save_memo outcome (memo n) of
        Inl (e, m) \<Rightarrow> Inl (e, n\<lparr>memo := m\<rparr>)
      | Inr m \<Rightarrow> Inr (n\<lparr>memo := m\<rparr>))"

definition OnTimerEvent :: "save_outcome \<Rightarrow> normal_note \<Rightarrow> (py_error \<times> normal_note) + normal_note" where
  "OnTimerEvent outcome n =
     (case UpdateNote outcome (StopTimer n) of
        Inl x \<Rightarrow> Inl x
      | Inr n' \<Rightarrow> Inr (SetStatusRecent n'))"

definition OnStatus :: "save_outcome \<Rightarrow> normal_note \<Rightarrow> (py_error \<times> normal_note) + normal_note" where
  "OnStatus outcome n =
     (if is_modified n then
        (case UpdateNote outcome (StopTimer n) of
           Inl x \<Rightarrow> Inl x
         | Inr n' \<Rightarrow> Inr (SetStatusRecent n'))
      else Inr n)"

text \<open>\<open>EVT_TEXT\<close> arrives when the value of the text control has changed.\<close>

definition OnChange :: "normal_note \<Rightarrow> normal_note" where
  "OnChange n = StartTimer DEFAULT_TIMER_TIME (SetStatusModified n)"

definition edit_text :: "string \<Rightarrow> normal_note \<Rightarrow> normal_note" where
  "edit_text str n = OnChange (n\<lparr>text_value := str\<rparr>)"

definition CloseNote :: "normal_note \<Rightarrow> normal_note" where
  "CloseNote n = (let n' = n\<lparr>shown := False\<rparr> in n'\<lparr>memo := close_memo (memo n')\<rparr>)"

definition OnClose :: "normal_note \<Rightarrow> normal_note" where
  "OnClose n = CloseNote n"

text \<open>The state a handler leaves behind, whether it returned or raised.\<close>

fun state_after :: "(py_error \<times> 'a) + 'a \<Rightarrow> 'a" where
  "state_after (Inl (e, s)) = s"
| "state_after (Inr s) = s"

subsection \<open>\<open>MemoList.MemoNode\<close>\<close>

datatype button_label = Label_M | Label_save | Label_O | Label_X

datatype event_type = EVT_BUTTON | EVT_TEXT_ENTER

record memo_node =
  view :: normal_note
  on_modifying :: bool
  text_title :: string
  title_editable :: bool
  button_modify :: button_label
  button_isopen :: button_label

text \<open>
  \<open>self.memo\<close> and \<open>self.memo.view\<close> refer to each other; the node holds the note
  \<open>view\<close>, and \<open>self.memo\<close> is \<open>memo (view nd)\<close>. \<open>text_title\<close> is the value
  of the title's text control.
\<close>

definition CheckIsOpen :: "memo_node \<Rightarrow> memo_node" where
  "CheckIsOpen nd =
     (if is_open (memo (view nd)) then nd\<lparr>button_isopen := Label_O\<rparr>
      else nd\<lparr>button_isopen := Label_X\<rparr>)"

definition OnButtonModify ::
  "event_type \<Rightarrow> save_outcome \<Rightarrow> memo_node \<Rightarrow> (py_error \<times> memo_node) + memo_node" where
  "OnButtonModify evt outcome nd =
     (if evt = EVT_TEXT_ENTER \<and> \<not> on_modifying nd then Inr nd
      else if \<not> on_modifying nd then
        Inr (nd\<lparr>on_modifying := True, title_editable := True, button_modify := Label_save\<rparr>)
      else if length (text_title nd) > 0 then
        (case save_memo outcome (set_title (text_title nd) (memo (view nd))) of
           Inl (e, m) \<Rightarrow> Inl (e, nd\<lparr>view := (view nd)\<lparr>memo := m\<rparr>\<rparr>)
         | Inr m \<Rightarrow>
             Inr (nd\<lparr>view := (view nd)\<lparr>memo := m\<rparr>, button_modify := Label_M,
                     on_modifying := False, title_editable := False\<rparr>))
      else Inr nd)"

definition OnButtonIsOpen ::
  "save_outcome \<Rightarrow> memo_node \<Rightarrow> (py_error \<times> memo_node) + memo_node" where
  "OnButtonIsOpen outcome nd =
     (let m = (memo (view nd))\<lparr>is_open := \<not> is_open (memo (view nd))\<rparr>;
          n = CheckShowNote (Some (is_open m)) ((view nd)\<lparr>memo := m\<rparr>)
      in case save_memo outcome (memo n) of
           Inl (e, m') \<Rightarrow> Inl (e, nd\<lparr>view := n\<lparr>memo := m'\<rparr>\<rparr>)
         | Inr m' \<Rightarrow> Inr (CheckIsOpen (nd\<lparr>view := n\<lparr>memo := m'\<rparr>\<rparr>)))"

section \<open>Properties of the codec\<close>

lemma starts_ci_append: "starts_ci lit x \<Longrightarrow> starts_ci lit (x @ y)"
  by (induction lit x rule: starts_ci.induct) auto

lemma starts_ci_cut:
  "starts_ci lit (x @ b # y) \<Longrightarrow> lower b \<notin> set lit \<Longrightarrow> starts_ci lit x"
  by (induction lit x rule: starts_ci.induct) auto

lemma starts_ci_straddle:
  assumes "\<not> starts_ci (a # lit) (c # l)" and "lower b \<notin> set lit"
  shows "\<not> starts_ci (a # lit) (c # l @ b # y)"
proof
  assume "starts_ci (a # lit) (c # l @ b # y)"
  then have "lower c = a" and "starts_ci lit (l @ b # y)" by simp_all
  with assms(2) have "starts_ci lit l" by (auto dest: starts_ci_cut)
  with \<open>lower c = a\<close> assms(1) show False by simp
qed

lemma occurs_ci_skip:
  assumes "\<not> occurs_ci (a # lit) l" and "lower b \<notin> set lit"
  shows "occurs_ci (a # lit) (l @ b # y) = occurs_ci (a # lit) (b # y)"
  using assms
proof (induction l)
  case Nil
  then show ?case by simp
next
  case (Cons c l)
  from Cons.prems have "\<not> starts_ci (a # lit) (c # l @ b # y)"
    by (intro starts_ci_straddle) simp_all
  moreover from Cons have "occurs_ci (a # lit) (l @ b # y) = occurs_ci (a # lit) (b # y)"
    by simp
  ultimately show ?case
    by auto
qed

lemma find_ci_first:
  assumes "\<not> occurs_ci (a # lit) l" and "lower b \<notin> set lit"
    and "starts_ci (a # lit) (b # y)"
  shows "find_ci (a # lit) (l @ b # y) = Some (l, drop (Suc (length lit)) (b # y))"
  using assms
proof (induction l)
  case Nil
  then show ?case by simp
next
  case (Cons c l)
  from Cons.prems have "\<not> starts_ci (a # lit) (c # l @ b # y)"
    by (intro starts_ci_straddle) simp_all
  with Cons show ?case by simp
qed

lemma find_close_p:
  "\<not> occurs_ci ''</p>'' l \<Longrightarrow> find_ci ''</p>'' (l @ ''</p>'' @ r) = Some (l, r)"
  using find_ci_first [of "CHR ''<''" "''/p>''" l "CHR ''<''" "''/p>'' @ r"]
  by (simp add: lower_def)

lemma find_close_div:
  "\<not> occurs_ci ''</div>'' l \<Longrightarrow> find_ci ''</div>'' (l @ ''</div>'' @ r) = Some (l, r)"
  using find_ci_first [of "CHR ''<''" "''/div>''" l "CHR ''<''" "''/div>'' @ r"]
  by (simp add: lower_def)

lemma rval_concat:
  "foldl (\<lambda>rval str2. rval @ ''<p>'' @ str2 @ ''</p>'') acc ls = acc @ concat (map p_segment ls)"
  by (induction ls arbitrary: acc) (simp_all add: p_segment_def)

lemma SerializeBody_segments:
  "SerializeBody t = ''<div id=\"body\">'' @ concat (map p_segment (split_newline t)) @ ''</div>''"
  using rval_concat [of "[]" "split_newline t"]
  by (simp add: SerializeBody_def)

lemma sub_segments:
  "\<forall>l \<in> set ls. \<not> occurs_ci ''</p>'' l \<Longrightarrow>
   re_replace1_sub (concat (map p_segment ls)) = concat (map (\<lambda>l. l @ [newline]) ls)"
proof (induction ls)
  case Nil
  then show ?case by simp
next
  case (Cons l ls)
  then have "\<not> occurs_ci ''</p>'' l" by simp
  then have "find_ci ''</p>'' (l @ ''</p>'' @ concat (map p_segment ls))
    = Some (l, concat (map p_segment ls))"
    by (rule find_close_p)
  then have "re_replace1_sub (p_segment l @ concat (map p_segment ls))
    = l @ [newline] @ re_replace1_sub (concat (map p_segment ls))"
    by (simp add: p_segment_def re_replace1_sub.simps(2) lower_def)
  with Cons show ?case by simp
qed

lemma concat_segments_Cons:
  "concat (map p_segment (l # ls)) = ''<p>'' @ (l @ ''</p>'' @ concat (map p_segment ls))"
  by (simp add: p_segment_def)

lemma no_div_in_segments:
  "\<forall>l \<in> set ls. \<not> occurs_ci ''</div>'' l \<Longrightarrow> \<not> occurs_ci ''</div>'' (concat (map p_segment ls))"
proof (induction ls)
  case Nil
  then show ?case by simp
next
  case (Cons l ls)
  then have a: "\<not> occurs_ci ''</div>'' l" and b: "\<not> occurs_ci ''</div>'' (concat (map p_segment ls))"
    by simp_all
  have "occurs_ci ''</div>'' (l @ ''</p>'' @ concat (map p_segment ls))
    = occurs_ci ''</div>'' (''</p>'' @ concat (map p_segment ls))"
    using occurs_ci_skip [OF _ , of "CHR ''<''" "''/div>''" l "CHR ''<''" "''/p>'' @ concat (map p_segment ls)"] a
    by (simp add: lower_def)
  with b have "\<not> occurs_ci ''</div>'' (l @ ''</p>'' @ concat (map p_segment ls))"
    by (simp add: lower_def)
  then show ?case
    unfolding concat_segments_Cons by (simp add: lower_def)
qed

lemma search_encoded:
  "\<not> occurs_ci ''</div>'' b \<Longrightarrow>
   re_get_body_search (''<div id=\"body\">'' @ b @ ''</div>'') = Some (b, [])"
  using find_close_div [of b "[]"]
  by (simp add: match_at_def lower_def)

lemma findall_Nil: "re_get_body_findall [] = []"
  by (simp add: re_get_body_findall.simps)

lemma findall_encoded:
  "\<not> occurs_ci ''</div>'' b \<Longrightarrow>
   re_get_body_findall (''<div id=\"body\">'' @ b @ ''</div>'') = [b]"
  using search_encoded [of b]
  by (subst re_get_body_findall.simps) (simp add: findall_Nil)


lemma split_newline_not_Nil: "split_newline t \<noteq> []"
  by (induction t) (auto split: list.splits)

lemma concat_split_newline:
  "concat (map (\<lambda>l. l @ [newline]) (split_newline t)) = t @ [newline]"
  by (induction t) (auto split: list.splits simp: split_newline_not_Nil)

lemma split_newline_first:
  "split_newline t = l # ls \<Longrightarrow> \<exists>r. t = l @ r"
  by (induction t arbitrary: l ls) (auto split: if_splits list.splits)

lemma occurs_ci_prefix: "occurs_ci (a # lit) x \<Longrightarrow> occurs_ci (a # lit) (x @ y)"
  by (induction x) (auto dest: starts_ci_append [where y = y])

lemma occurs_ci_line:
  "l \<in> set (split_newline t) \<Longrightarrow> occurs_ci (a # lit) l \<Longrightarrow> occurs_ci (a # lit) t"
proof (induction t arbitrary: l)
  case Nil
  then show ?case by simp
next
  case (Cons c cs)
  show ?case
  proof (cases "c = newline")
    case True
    with Cons.prems have "l = [] \<or> l \<in> set (split_newline cs)" by auto
    with Cons show ?thesis by auto
  next
    case False
    obtain l0 ls where sp: "split_newline cs = l0 # ls"
      using split_newline_not_Nil [of cs] by (cases "split_newline cs") auto
    then obtain r where r: "cs = l0 @ r"
      by (auto dest: split_newline_first)
    from False sp Cons.prems(1) have "l = c # l0 \<or> l \<in> set (split_newline cs)"
      by auto
    then show ?thesis
    proof
      assume "l = c # l0"
      with Cons.prems(2) have "occurs_ci (a # lit) ((c # l0) @ r)"
        by (intro occurs_ci_prefix) simp
      with r show ?thesis by simp
    next
      assume "l \<in> set (split_newline cs)"
      with Cons show ?thesis by auto
    qed
  qed
qed

lemma decode_encode:
  assumes "\<not> occurs_ci ''</p>'' t" and "\<not> occurs_ci ''</div>'' t"
  shows "GetBodyFromSource (SerializeBody t) = Inr (t @ [newline])"
proof -
  let ?ls = "split_newline t"
  from assms(1) have p: "\<forall>l \<in> set ?ls. \<not> occurs_ci ''</p>'' l"
    by (auto dest: occurs_ci_line)
  from assms(2) have "\<forall>l \<in> set ?ls. \<not> occurs_ci ''</div>'' l"
    by (auto dest: occurs_ci_line)
  then have "\<not> occurs_ci ''</div>'' (concat (map p_segment ?ls))"
    by (rule no_div_in_segments)
  then have "re_get_body_findall (SerializeBody t) = [concat (map p_segment ?ls)]"
    unfolding SerializeBody_segments by (rule findall_encoded)
  then have "GetBodyFromSource (SerializeBody t) = Inr (re_replace1_sub (concat (map p_segment ?ls)))"
    by (simp add: GetBodyFromSource_def)
  also have "re_replace1_sub (concat (map p_segment ?ls)) = concat (map (\<lambda>l. l @ [newline]) ?ls)"
    using p by (rule sub_segments)
  also have "\<dots> = t @ [newline]"
    by (rule concat_split_newline)
  finally show ?thesis .
qed

lemma split_newline_snoc: "split_newline (t @ [newline]) = split_newline t @ [[]]"
  by (induction t) (auto split: list.splits simp: split_newline_not_Nil)

lemma SerializeBody_length:
  "length (SerializeBody t) = 21 + length (concat (map p_segment (split_newline t)))"
  by (simp add: SerializeBody_segments)

lemma findall_empty_iff:
  "re_get_body_findall src = [] \<longleftrightarrow> re_get_body_search src = None"
  by (subst re_get_body_findall.simps) (auto split: option.splits)

lemma initData_without_page: "page (memo n) = None \<Longrightarrow> initData n = Inr n"
  by (simp add: initData_def)

section \<open>The claims about the codec\<close>

text \<open>
  C1. Round trip. Decoding the encoding of a text \<open>t\<close> does not give \<open>t\<close> back: the
  substitution puts a line break after every paragraph segment, the last one included, so
  the result is \<open>t\<close> followed by one line break. This holds for every \<open>t\<close> without a
  closing paragraph delimiter \<^verbatim>\<open></p>\<close> and without a closing container tag
  \<^verbatim>\<open></div>\<close>, in any letter case; every text without paragraph delimiters and
  without container markup is such a text.
\<close>

theorem decode_encode_appends_newline:
  assumes "\<not> occurs_ci ''</p>'' t" and "\<not> occurs_ci ''</div>'' t"
  shows "GetBodyFromSource (SerializeBody t) = Inr (t @ [newline])"
  using assms by (rule decode_encode)

theorem decode_encode_appends_newline_witness:
  "\<not> occurs_ci ''</p>'' ''memo'' \<and> \<not> occurs_ci ''</div>'' ''memo''
   \<and> GetBodyFromSource (SerializeBody ''memo'') = Inr (''memo'' @ [newline])"
proof -
  have a: "\<not> occurs_ci ''</p>'' ''memo''" by code_simp
  have b: "\<not> occurs_ci ''</div>'' ''memo''" by code_simp
  from a b decode_encode_appends_newline [OF a b] show ?thesis by simp
qed

text \<open>The text \<open>a\<close> holds no delimiter and no markup, and does not come back.\<close>

theorem roundtrip_counterexample:
  "\<not> occurs_ci ''<p>'' ''a'' \<and> \<not> occurs_ci ''</p>'' ''a'' \<and> \<not> occurs_ci ''<div'' ''a''
   \<and> \<not> occurs_ci ''</div>'' ''a'' \<and> GetBodyFromSource (SerializeBody ''a'') \<noteq> Inr ''a''"
  by code_simp

text \<open>
  C2. Missing container. When the source holds no match of the body pattern, decoding
  raises \<open>IndexError\<close> and returns no text; it raises in no other case. A memo without
  a page is not decoded at all: \<open>initData\<close> skips it (\<open>initData_without_page\<close>).
\<close>

theorem decode_without_container_raises:
  "GetBodyFromSource src = Inl IndexError \<longleftrightarrow> re_get_body_search src = None"
  by (auto simp: GetBodyFromSource_def findall_empty_iff [symmetric] split: list.splits)

theorem decode_without_container_raises_witness:
  "re_get_body_search ''<div>no body here</div>'' = None
   \<and> GetBodyFromSource ''<div>no body here</div>'' = Inl IndexError"
proof -
  have a: "re_get_body_search ''<div>no body here</div>'' = None" by code_simp
  with decode_without_container_raises [of "''<div>no body here</div>''"] show ?thesis
    by simp
qed

theorem decode_without_container_counterexample:
  "re_get_body_search ''<div>no body here</div>'' = None
   \<and> GetBodyFromSource ''<div>no body here</div>'' \<noteq> Inr []"
  by code_simp

text \<open>
  C5. Encoding after decoding. For a text \<open>t\<close> as in C1, encoding the decoded encoding
  of \<open>t\<close> gives the segments of \<open>t\<close> followed by one more, empty segment: it is the
  encoding of \<open>t\<close> with a line break appended, and never the encoding of \<open>t\<close>.
\<close>

theorem encode_decode_encode_extra_segment:
  assumes "\<not> occurs_ci ''</p>'' t" and "\<not> occurs_ci ''</div>'' t"
  shows "map_sum id SerializeBody (GetBodyFromSource (SerializeBody t))
           = Inr (''<div id=\"body\">'' @ concat (map p_segment (split_newline t @ [[]]))
                  @ ''</div>'')
         \<and> map_sum id SerializeBody (GetBodyFromSource (SerializeBody t))
           \<noteq> Inr (SerializeBody t)"
proof -
  have "map_sum id SerializeBody (GetBodyFromSource (SerializeBody t))
      = Inr (SerializeBody (t @ [newline]))"
    using assms by (simp add: decode_encode)
  moreover have "SerializeBody (t @ [newline])
      = ''<div id=\"body\">'' @ concat (map p_segment (split_newline t @ [[]])) @ ''</div>''"
    unfolding SerializeBody_segments split_newline_snoc ..
  moreover have "length (SerializeBody (t @ [newline])) \<noteq> length (SerializeBody t)"
    by (simp add: SerializeBody_length split_newline_snoc p_segment_def)
  then have "SerializeBody (t @ [newline]) \<noteq> SerializeBody t"
    by auto
  ultimately show ?thesis by simp
qed

theorem encode_decode_encode_extra_segment_witness:
  "\<not> occurs_ci ''</p>'' ''a'' \<and> \<not> occurs_ci ''</div>'' ''a''
   \<and> map_sum id SerializeBody (GetBodyFromSource (SerializeBody ''a''))
       = Inr ''<div id=\"body\"><p>a</p><p></p></div>''"
proof -
  have a: "\<not> occurs_ci ''</p>'' ''a''" by code_simp
  have b: "\<not> occurs_ci ''</div>'' ''a''" by code_simp
  have c: "split_newline ''a'' = [''a'']" by code_simp
  from a b c encode_decode_encode_extra_segment [OF a b] show ?thesis
    by (simp add: p_segment_def)
qed

theorem encode_idempotence_counterexample:
  "map_sum id SerializeBody (GetBodyFromSource (SerializeBody ''a''))
     \<noteq> Inr (SerializeBody ''a'')"
  by code_simp

text \<open>
  C6. The empty text. Splitting the empty string at line breaks gives the list of one
  empty string, so the encoding of the empty text holds exactly one paragraph segment, an
  empty one.
\<close>

theorem encode_empty_one_segment:
  "SerializeBody [] = ''<div id=\"body\"><p></p></div>''"
  by (simp add: SerializeBody_def)

theorem encode_empty_counterexample:
  "SerializeBody [] \<noteq> ''<div id=\"body\"></div>''"
  by (simp add: SerializeBody_def)

text \<open>
  C7. Empty lines. The encoding of any text is the container around one paragraph
  segment per line of the text, in order, empty lines included. The three lines
  \<open>a\<close>, empty, \<open>b\<close> give three segments, the middle one empty. Decoding them gives
  each of the three lines followed by a line break: one line break more than the encoded
  text had, so that splitting the decoded text at line breaks gives a fourth, empty line.
\<close>

theorem encode_keeps_every_line:
  "SerializeBody t
     = ''<div id=\"body\">'' @ concat (map p_segment (split_newline t)) @ ''</div>''
   \<and> split_newline (''a'' @ [newline, newline] @ ''b'') = [''a'', [], ''b'']
   \<and> SerializeBody (''a'' @ [newline, newline] @ ''b'')
       = ''<div id=\"body\"><p>a</p><p></p><p>b</p></div>''
   \<and> GetBodyFromSource (SerializeBody (''a'' @ [newline, newline] @ ''b''))
       = Inr (''a'' @ [newline] @ [] @ [newline] @ ''b'' @ [newline])
   \<and> split_newline (''a'' @ [newline] @ [] @ [newline] @ ''b'' @ [newline])
       = [''a'', [], ''b'', []]"
proof -
  have "split_newline (''a'' @ [newline, newline] @ ''b'') = [''a'', [], ''b'']"
    by code_simp
  moreover have "SerializeBody (''a'' @ [newline, newline] @ ''b'')
      = ''<div id=\"body\"><p>a</p><p></p><p>b</p></div>''"
    by code_simp
  moreover have "GetBodyFromSource (SerializeBody (''a'' @ [newline, newline] @ ''b''))
       = Inr (''a'' @ [newline] @ [] @ [newline] @ ''b'' @ [newline])"
    by code_simp
  moreover have "split_newline (''a'' @ [newline] @ [] @ [newline] @ ''b'' @ [newline])
       = [''a'', [], ''b'', []]"
    by code_simp
  ultimately show ?thesis
    using SerializeBody_segments [of t] by simp
qed

theorem decode_three_lines_counterexample:
  "GetBodyFromSource (SerializeBody (''a'' @ [newline, newline] @ ''b''))
     \<noteq> Inr (''a'' @ [newline, newline] @ ''b'')
   \<and> map_sum id split_newline
        (GetBodyFromSource (SerializeBody (''a'' @ [newline, newline] @ ''b'')))
     \<noteq> Inr [''a'', [], ''b'']"
  by code_simp

text \<open>
  C10. Trailing line break. Every paragraph segment is replaced by its content followed
  by a line break, and text outside the segments is copied. So when the body taken from
  the source is a sequence of one or more paragraph segments and nothing else, the decoded
  text is each segment's content followed by a line break, in order: it ends with a line
  break, and has one line break per segment, one more than there are boundaries between
  segments. A body that holds a segment and then further text does not decode to a text
  that ends with a line break.
\<close>

theorem decode_trailing_newline:
  assumes "re_get_body_findall src = concat (map p_segment ls) # rest"
    and "ls \<noteq> []"
    and "\<forall>l \<in> set ls. \<not> occurs_ci ''</p>'' l"
  shows "GetBodyFromSource src = Inr (concat (map (\<lambda>l. l @ [newline]) ls))
         \<and> concat (map (\<lambda>l. l @ [newline]) ls) \<noteq> []
         \<and> last (concat (map (\<lambda>l. l @ [newline]) ls)) = newline"
proof -
  from assms(1,3)
  have "GetBodyFromSource src = Inr (concat (map (\<lambda>l. l @ [newline]) ls))"
    by (simp add: GetBodyFromSource_def sub_segments)
  moreover from assms(2) obtain ks k where "ls = ks @ [k]"
    by (cases ls rule: rev_cases) auto
  then have "concat (map (\<lambda>l. l @ [newline]) ls)
      = (concat (map (\<lambda>l. l @ [newline]) ks) @ k) @ [newline]"
    by simp
  then have "concat (map (\<lambda>l. l @ [newline]) ls) \<noteq> []"
    and "last (concat (map (\<lambda>l. l @ [newline]) ls)) = newline"
    by (simp_all del: append_assoc)
  ultimately show ?thesis by simp
qed

theorem decode_trailing_newline_witness:
  "re_get_body_findall ''<div id=\"body\"><p>a</p><p>b</p></div>''
     = concat (map p_segment [''a'', ''b'']) # []
   \<and> [''a'', ''b''] \<noteq> []
   \<and> \<not> occurs_ci ''</p>'' ''a'' \<and> \<not> occurs_ci ''</p>'' ''b''
   \<and> GetBodyFromSource ''<div id=\"body\"><p>a</p><p>b</p></div>''
       = Inr (''a'' @ [newline] @ ''b'' @ [newline])
   \<and> last (''a'' @ [newline] @ ''b'' @ [newline]) = newline"
proof -
  have a: "re_get_body_findall ''<div id=\"body\"><p>a</p><p>b</p></div>''
      = concat (map p_segment [''a'', ''b'']) # []"
    by code_simp
  have b: "[''a'', ''b''] \<noteq> []" by simp
  have c: "\<not> occurs_ci ''</p>'' ''a''" and d: "\<not> occurs_ci ''</p>'' ''b''"
    by code_simp+
  from c d have e: "\<forall>l \<in> set [''a'', ''b'']. \<not> occurs_ci ''</p>'' l" by simp
  from a b c d decode_trailing_newline [OF a b e] show ?thesis by simp
qed

text \<open>
  A body with text after its only segment; the second source is what encoding the text
  \<^verbatim>\<open>x</p>y\<close> stores.
\<close>

theorem trailing_newline_counterexample:
  "re_get_body_findall ''<div id=\"body\"><p>a</p>b</div>'' = [p_segment ''a'' @ ''b'']
   \<and> GetBodyFromSource ''<div id=\"body\"><p>a</p>b</div>'' = Inr (''a'' @ [newline] @ ''b'')
   \<and> last (''a'' @ [newline] @ ''b'') \<noteq> newline
   \<and> re_get_body_findall (SerializeBody ''x</p>y'') = [p_segment ''x'' @ ''y</p>'']
   \<and> GetBodyFromSource (SerializeBody ''x</p>y'') = Inr (''x'' @ [newline] @ ''y</p>'')
   \<and> last (''x'' @ [newline] @ ''y</p>'') \<noteq> newline"
  by code_simp

section \<open>The claims about saving\<close>

text \<open>
  C3. A failing save. The handlers that save a modified note (the timer's expiry and the
  status button) stop the timer and do not start it again, leave the text as it is, call
  \<open>save_memo\<close> once, and then clear the modified flag without looking at what the call
  returned. The note is still marked modified afterwards only when the call raised; when
  it returned, also after a failed update, the note is marked as saved.
\<close>

theorem save_handlers_status:
  assumes "is_modified n"
  shows "text_value (state_after (OnTimerEvent outcome n)) = text_value n
       \<and> timer (state_after (OnTimerEvent outcome n)) = None
       \<and> calls (memo (state_after (OnTimerEvent outcome n))) = calls (memo n) @ [Save_memo]
       \<and> is_modified (state_after (OnTimerEvent outcome n)) = (outcome = Raised)
       \<and> text_value (state_after (OnStatus outcome n)) = text_value n
       \<and> timer (state_after (OnStatus outcome n)) = None
       \<and> calls (memo (state_after (OnStatus outcome n))) = calls (memo n) @ [Save_memo]
       \<and> is_modified (state_after (OnStatus outcome n)) = (outcome = Raised)"
  using assms
  by (cases outcome)
     (simp_all add: OnTimerEvent_def OnStatus_def UpdateNote_def save_memo_def StopTimer_def
        SetStatusRecent_def)

theorem save_handlers_status_witness:
  "is_modified (edit_text ''abc'' (Note_init \<lparr>page = None, is_open = True, calls = []\<rparr>))
   \<and> is_modified (state_after (OnTimerEvent Raised
         (edit_text ''abc'' (Note_init \<lparr>page = None, is_open = True, calls = []\<rparr>))))
   \<and> text_value (state_after (OnTimerEvent Raised
         (edit_text ''abc'' (Note_init \<lparr>page = None, is_open = True, calls = []\<rparr>))))
       = ''abc''"
proof -
  have a: "is_modified
      (edit_text ''abc'' (Note_init \<lparr>page = None, is_open = True, calls = []\<rparr>))"
    by (simp add: edit_text_def OnChange_def StartTimer_def SetStatusModified_def)
  have b: "text_value
      (edit_text ''abc'' (Note_init \<lparr>page = None, is_open = True, calls = []\<rparr>)) = ''abc''"
    by (simp add: edit_text_def OnChange_def StartTimer_def SetStatusModified_def)
  from a b save_handlers_status [OF a, of Raised] show ?thesis by simp
qed

text \<open>A modified note whose save returns after a failed update is no longer modified.\<close>

theorem failed_save_counterexample:
  "is_modified (edit_text ''abc'' (Note_init \<lparr>page = None, is_open = True, calls = []\<rparr>))
   \<and> \<not> is_modified (state_after (OnTimerEvent Failed
         (edit_text ''abc'' (Note_init \<lparr>page = None, is_open = True, calls = []\<rparr>))))"
  by (simp add: edit_text_def OnChange_def Note_init_def CheckShowNote_def StartTimer_def
      SetStatusModified_def OnTimerEvent_def UpdateNote_def save_memo_def StopTimer_def
      SetStatusRecent_def)

text \<open>
  C4. Closing. A close request hides the note and then calls \<open>close_memo\<close>, and nothing
  else: no \<open>save_memo\<close> call comes before it, whether the note is modified or not, and
  the modified flag, the timer and the text stay as they were.
\<close>

theorem close_makes_no_save:
  "OnClose n = n\<lparr>shown := False, memo := (memo n)\<lparr>calls := calls (memo n) @ [Close_memo]\<rparr>\<rparr>
   \<and> calls (memo (OnClose n)) = calls (memo n) @ [Close_memo]
   \<and> is_modified (OnClose n) = is_modified n
   \<and> timer (OnClose n) = timer n
   \<and> text_value (OnClose n) = text_value n"
  by (simp add: OnClose_def CloseNote_def close_memo_def)

theorem close_while_modified_counterexample:
  "is_modified (edit_text ''abc'' (Note_init \<lparr>page = None, is_open = True, calls = []\<rparr>))
   \<and> calls (memo (OnClose
        (edit_text ''abc'' (Note_init \<lparr>page = None, is_open = True, calls = []\<rparr>))))
       = [Close_memo]
   \<and> is_modified (OnClose
        (edit_text ''abc'' (Note_init \<lparr>page = None, is_open = True, calls = []\<rparr>)))"
  by (simp add: edit_text_def OnChange_def Note_init_def CheckShowNote_def StartTimer_def
      SetStatusModified_def OnClose_def CloseNote_def close_memo_def)

text \<open>
  C8. Toggling visibility. The toggle flips \<open>is_open\<close>, shows or hides the note to
  match, and calls \<open>save_memo\<close> exactly once, at once. It does not touch the modified
  flag, the timer or the text: a note that was not modified is never marked modified, and
  a modified note is still modified, with its timer running, after the toggle's save.
\<close>

theorem toggle_saves_once_keeps_status:
  "calls (memo (view (state_after (OnButtonIsOpen outcome nd))))
     = calls (memo (view nd)) @ [Save_memo]
   \<and> is_open (memo (view (state_after (OnButtonIsOpen outcome nd))))
     = (\<not> is_open (memo (view nd)))
   \<and> shown (view (state_after (OnButtonIsOpen outcome nd))) = (\<not> is_open (memo (view nd)))
   \<and> is_modified (view (state_after (OnButtonIsOpen outcome nd))) = is_modified (view nd)
   \<and> timer (view (state_after (OnButtonIsOpen outcome nd))) = timer (view nd)
   \<and> text_value (view (state_after (OnButtonIsOpen outcome nd))) = text_value (view nd)"
  by (cases outcome)
     (simp_all add: OnButtonIsOpen_def save_memo_def CheckShowNote_def CheckIsOpen_def Let_def)

text \<open>
  A toggle on a modified note: its save succeeds and the note is still modified with the
  timer running; the timer's expiry then saves a second time before the flag is cleared.
  A toggle on an unmodified note: the flag is not set when the save is called (the state
  left by a raising save) nor afterwards, and no timer is started.
\<close>

theorem toggle_counterexample:
  "is_modified (view (state_after (OnButtonIsOpen Saved
      \<lparr>view = edit_text ''abc'' (Note_init \<lparr>page = None, is_open = True, calls = []\<rparr>),
       on_modifying = False, text_title = ''t'', title_editable = False,
       button_modify = Label_M, button_isopen = Label_O\<rparr>)))
   \<and> timer (view (state_after (OnButtonIsOpen Saved
      \<lparr>view = edit_text ''abc'' (Note_init \<lparr>page = None, is_open = True, calls = []\<rparr>),
       on_modifying = False, text_title = ''t'', title_editable = False,
       button_modify = Label_M, button_isopen = Label_O\<rparr>))) = Some 5000
   \<and> calls (memo (state_after (OnTimerEvent Saved (view (state_after (OnButtonIsOpen Saved
      \<lparr>view = edit_text ''abc'' (Note_init \<lparr>page = None, is_open = True, calls = []\<rparr>),
       on_modifying = False, text_title = ''t'', title_editable = False,
       button_modify = Label_M, button_isopen = Label_O\<rparr>)))))) = [Save_memo, Save_memo]
   \<and> \<not> is_modified (view (state_after (OnButtonIsOpen Raised
      \<lparr>view = Note_init \<lparr>page = None, is_open = True, calls = []\<rparr>,
       on_modifying = False, text_title = ''t'', title_editable = False,
       button_modify = Label_M, button_isopen = Label_O\<rparr>)))
   \<and> \<not> is_modified (view (state_after (OnButtonIsOpen Saved
      \<lparr>view = Note_init \<lparr>page = None, is_open = True, calls = []\<rparr>,
       on_modifying = False, text_title = ''t'', title_editable = False,
       button_modify = Label_M, button_isopen = Label_O\<rparr>)))
   \<and> timer (view (state_after (OnButtonIsOpen Saved
      \<lparr>view = Note_init \<lparr>page = None, is_open = True, calls = []\<rparr>,
       on_modifying = False, text_title = ''t'', title_editable = False,
       button_modify = Label_M, button_isopen = Label_O\<rparr>))) = None"
  by (simp add: edit_text_def OnChange_def Note_init_def CheckShowNote_def StartTimer_def
      SetStatusModified_def OnTimerEvent_def UpdateNote_def save_memo_def StopTimer_def
      SetStatusRecent_def OnButtonIsOpen_def CheckIsOpen_def DEFAULT_TIMER_TIME_def Let_def)

text \<open>
  C9. Renaming. In a node whose title is being edited, a proposed title of length zero
  changes nothing: the handler returns the node as it was, with the stored title and the
  list of calls to the memo unchanged. A proposed title of positive length is stored with
  \<open>set_title\<close> and saved at once with one \<open>save_memo\<close> call. This save does not go
  the way of a text edit, which marks the note modified and starts the timer: the rename
  leaves the modified flag, the timer and the text of the note as they were. When the
  save returns, the node leaves edit mode; when it raises, the node stays in edit mode.
\<close>

theorem title_rename_saves_directly:
  assumes "on_modifying nd"
  shows "(length (text_title nd) = 0 \<longrightarrow> OnButtonModify evt outcome nd = Inr nd)
       \<and> (length (text_title nd) > 0 \<longrightarrow>
            calls (memo (view (state_after (OnButtonModify evt outcome nd))))
              = calls (memo (view nd)) @ [Set_title (text_title nd), Save_memo]
          \<and> page (memo (view (state_after (OnButtonModify evt outcome nd))))
              = map_option (\<lambda>pg. pg\<lparr>title := text_title nd\<rparr>) (page (memo (view nd)))
          \<and> is_modified (view (state_after (OnButtonModify evt outcome nd)))
              = is_modified (view nd)
          \<and> timer (view (state_after (OnButtonModify evt outcome nd))) = timer (view nd)
          \<and> text_value (view (state_after (OnButtonModify evt outcome nd)))
              = text_value (view nd)
          \<and> on_modifying (state_after (OnButtonModify evt outcome nd)) = (outcome = Raised)
          \<and> title_editable (state_after (OnButtonModify evt outcome nd))
              = (outcome = Raised \<and> title_editable nd)
          \<and> button_modify (state_after (OnButtonModify evt outcome nd))
              = (if outcome = Raised then button_modify nd else Label_M))"
  using assms
  by (cases outcome)
     (simp_all add: OnButtonModify_def save_memo_def set_title_def)

text \<open>
  The note of a memo whose page holds the body \<open>x\<close>, as \<open>initData\<close> leaves it, in a
  node in edit mode: once with an empty title and once with the title \<open>new\<close>.
\<close>

theorem title_rename_saves_directly_witness:
  "initData (Note_init
        \<lparr>page = Some \<lparr>title = ''old'', source = ''<div id=\"body\"><p>x</p></div>''\<rparr>,
         is_open = True, calls = []\<rparr>)
     = Inr \<lparr>memo = \<lparr>page = Some \<lparr>title = ''old'',
                                   source = ''<div id=\"body\"><p>x</p></div>''\<rparr>,
                      is_open = True, calls = []\<rparr>,
            body = Some (''x'' @ [newline]), is_modified = False, timer = None,
            button_status = Green, shown = True, text_value = ''x'' @ [newline]\<rparr>
   \<and> OnButtonModify EVT_BUTTON Saved
     \<lparr>view = state_after (initData (Note_init
        \<lparr>page = Some \<lparr>title = ''old'', source = ''<div id=\"body\"><p>x</p></div>''\<rparr>,
         is_open = True, calls = []\<rparr>)),
      on_modifying = True, text_title = [], title_editable = True,
      button_modify = Label_save, button_isopen = Label_O\<rparr>
     = Inr
     \<lparr>view = state_after (initData (Note_init
        \<lparr>page = Some \<lparr>title = ''old'', source = ''<div id=\"body\"><p>x</p></div>''\<rparr>,
         is_open = True, calls = []\<rparr>)),
      on_modifying = True, text_title = [], title_editable = True,
      button_modify = Label_save, button_isopen = Label_O\<rparr>
   \<and> calls (memo (view (state_after (OnButtonModify EVT_BUTTON Saved
     \<lparr>view = state_after (initData (Note_init
        \<lparr>page = Some \<lparr>title = ''old'', source = ''<div id=\"body\"><p>x</p></div>''\<rparr>,
         is_open = True, calls = []\<rparr>)),
      on_modifying = True, text_title = ''new'', title_editable = True,
      button_modify = Label_save, button_isopen = Label_O\<rparr>))))
     = [Set_title ''new'', Save_memo]
   \<and> page (memo (view (state_after (OnButtonModify EVT_BUTTON Saved
     \<lparr>view = state_after (initData (Note_init
        \<lparr>page = Some \<lparr>title = ''old'', source = ''<div id=\"body\"><p>x</p></div>''\<rparr>,
         is_open = True, calls = []\<rparr>)),
      on_modifying = True, text_title = ''new'', title_editable = True,
      button_modify = Label_save, button_isopen = Label_O\<rparr>))))
     = Some \<lparr>title = ''new'', source = ''<div id=\"body\"><p>x</p></div>''\<rparr>
   \<and> \<not> is_modified (view (state_after (OnButtonModify EVT_BUTTON Saved
     \<lparr>view = state_after (initData (Note_init
        \<lparr>page = Some \<lparr>title = ''old'', source = ''<div id=\"body\"><p>x</p></div>''\<rparr>,
         is_open = True, calls = []\<rparr>)),
      on_modifying = True, text_title = ''new'', title_editable = True,
      button_modify = Label_save, button_isopen = Label_O\<rparr>)))
   \<and> timer (view (state_after (OnButtonModify EVT_BUTTON Saved
     \<lparr>view = state_after (initData (Note_init
        \<lparr>page = Some \<lparr>title = ''old'', source = ''<div id=\"body\"><p>x</p></div>''\<rparr>,
         is_open = True, calls = []\<rparr>)),
      on_modifying = True, text_title = ''new'', title_editable = True,
      button_modify = Label_save, button_isopen = Label_O\<rparr>))) = None
   \<and> \<not> on_modifying (state_after (OnButtonModify EVT_BUTTON Saved
     \<lparr>view = state_after (initData (Note_init
        \<lparr>page = Some \<lparr>title = ''old'', source = ''<div id=\"body\"><p>x</p></div>''\<rparr>,
         is_open = True, calls = []\<rparr>)),
      on_modifying = True, text_title = ''new'', title_editable = True,
      button_modify = Label_save, button_isopen = Label_O\<rparr>))
   \<and> button_modify (state_after (OnButtonModify EVT_BUTTON Saved
     \<lparr>view = state_after (initData (Note_init
        \<lparr>page = Some \<lparr>title = ''old'', source = ''<div id=\"body\"><p>x</p></div>''\<rparr>,
         is_open = True, calls = []\<rparr>)),
      on_modifying = True, text_title = ''new'', title_editable = True,
      button_modify = Label_save, button_isopen = Label_O\<rparr>)) = Label_M"
proof -
  have v: "initData (Note_init
        \<lparr>page = Some \<lparr>title = ''old'', source = ''<div id=\"body\"><p>x</p></div>''\<rparr>,
         is_open = True, calls = []\<rparr>)
     = Inr \<lparr>memo = \<lparr>page = Some \<lparr>title = ''old'',
                                   source = ''<div id=\"body\"><p>x</p></div>''\<rparr>,
                      is_open = True, calls = []\<rparr>,
            body = Some (''x'' @ [newline]), is_modified = False, timer = None,
            button_status = Green, shown = True, text_value = ''x'' @ [newline]\<rparr>"
    by code_simp
  have e: "OnButtonModify EVT_BUTTON Saved
     \<lparr>view = state_after (initData (Note_init
        \<lparr>page = Some \<lparr>title = ''old'', source = ''<div id=\"body\"><p>x</p></div>''\<rparr>,
         is_open = True, calls = []\<rparr>)),
      on_modifying = True, text_title = [], title_editable = True,
      button_modify = Label_save, button_isopen = Label_O\<rparr>
     = Inr
     \<lparr>view = state_after (initData (Note_init
        \<lparr>page = Some \<lparr>title = ''old'', source = ''<div id=\"body\"><p>x</p></div>''\<rparr>,
         is_open = True, calls = []\<rparr>)),
      on_modifying = True, text_title = [], title_editable = True,
      button_modify = Label_save, button_isopen = Label_O\<rparr>"
    using title_rename_saves_directly [of
      "\<lparr>view = state_after (initData (Note_init
        \<lparr>page = Some \<lparr>title = ''old'', source = ''<div id=\"body\"><p>x</p></div>''\<rparr>,
         is_open = True, calls = []\<rparr>)),
      on_modifying = True, text_title = [], title_editable = True,
      button_modify = Label_save, button_isopen = Label_O\<rparr>" EVT_BUTTON Saved]
    by simp
  from v e title_rename_saves_directly [of
      "\<lparr>view = state_after (initData (Note_init
        \<lparr>page = Some \<lparr>title = ''old'', source = ''<div id=\"body\"><p>x</p></div>''\<rparr>,
         is_open = True, calls = []\<rparr>)),
      on_modifying = True, text_title = ''new'', title_editable = True,
      button_modify = Label_save, button_isopen = Label_O\<rparr>" EVT_BUTTON Saved]
  show ?thesis by simp
qed

text \<open>
  On the same note, not modified and with no timer running, the rename to \<open>new\<close> makes
  its two calls and the note is not marked modified and no timer runs, neither when the
  save is called (the state a raising save leaves) nor after it has returned; a text edit
  on that note marks it modified and starts the timer.
\<close>

theorem rename_pipeline_counterexample:
  "calls (memo (view (state_after (OnButtonModify EVT_BUTTON Saved
     \<lparr>view = state_after (initData (Note_init
        \<lparr>page = Some \<lparr>title = ''old'', source = ''<div id=\"body\"><p>x</p></div>''\<rparr>,
         is_open = True, calls = []\<rparr>)),
      on_modifying = True, text_title = ''new'', title_editable = True,
      button_modify = Label_save, button_isopen = Label_O\<rparr>))))
     = [Set_title ''new'', Save_memo]
   \<and> \<not> is_modified (view (state_after (OnButtonModify EVT_BUTTON Raised
     \<lparr>view = state_after (initData (Note_init
        \<lparr>page = Some \<lparr>title = ''old'', source = ''<div id=\"body\"><p>x</p></div>''\<rparr>,
         is_open = True, calls = []\<rparr>)),
      on_modifying = True, text_title = ''new'', title_editable = True,
      button_modify = Label_save, button_isopen = Label_O\<rparr>)))
   \<and> \<not> is_modified (view (state_after (OnButtonModify EVT_BUTTON Saved
     \<lparr>view = state_after (initData (Note_init
        \<lparr>page = Some \<lparr>title = ''old'', source = ''<div id=\"body\"><p>x</p></div>''\<rparr>,
         is_open = True, calls = []\<rparr>)),
      on_modifying = True, text_title = ''new'', title_editable = True,
      button_modify = Label_save, button_isopen = Label_O\<rparr>)))
   \<and> timer (view (state_after (OnButtonModify EVT_BUTTON Saved
     \<lparr>view = state_after (initData (Note_init
        \<lparr>page = Some \<lparr>title = ''old'', source = ''<div id=\"body\"><p>x</p></div>''\<rparr>,
         is_open = True, calls = []\<rparr>)),
      on_modifying = True, text_title = ''new'', title_editable = True,
      button_modify = Label_save, button_isopen = Label_O\<rparr>))) = None
   \<and> is_modified (edit_text ''y'' (state_after (initData (Note_init
        \<lparr>page = Some \<lparr>title = ''old'', source = ''<div id=\"body\"><p>x</p></div>''\<rparr>,
         is_open = True, calls = []\<rparr>))))
   \<and> timer (edit_text ''y'' (state_after (initData (Note_init
        \<lparr>page = Some \<lparr>title = ''old'', source = ''<div id=\"body\"><p>x</p></div>''\<rparr>,
         is_open = True, calls = []\<rparr>)))) = Some 5000"
  by code_simp

end
